theory Spec2Isabelle
  imports Main "HOL-Library.Sublist"
begin

section \<open>Values crossing the webview boundary\<close>

text \<open>
  Messages are untyped on arrival (\<^verbatim>\<open>message\<close> has type \<^verbatim>\<open>any\<close> in the handler of
  \<^verbatim>\<open>ExamplePanel.ts\<close>), so they are modelled as JavaScript values. An object is an
  association list of its own properties; the first binding of a key is the property.
\<close>

datatype jsval =
    JUndefined
  | JNull
  | JBool bool
  | JNum int
  | JStr string
  | JObj "(string \<times> jsval) list"

datatype js_error = TypeError

text \<open>
  Property read \<^verbatim>\<open>v.k\<close>: reading a property of \<^verbatim>\<open>undefined\<close> or \<^verbatim>\<open>null\<close> throws a
  TypeError, a missing property of an object reads as \<^verbatim>\<open>undefined\<close>. The keys read by
  this program (\<^verbatim>\<open>command\<close>, \<^verbatim>\<open>text\<close>) are not properties of any primitive wrapper, so
  the read of a boolean, number or string gives \<^verbatim>\<open>undefined\<close>.
\<close>

fun get_prop :: "jsval \<Rightarrow> string \<Rightarrow> js_error + jsval" where
  "get_prop JUndefined k = Inl TypeError"
| "get_prop JNull k = Inl TypeError"
| "get_prop (JObj fs) k = Inr (case map_of fs k of None \<Rightarrow> JUndefined | Some v \<Rightarrow> v)"
| "get_prop v k = Inr JUndefined"

section \<open>The host platform and the panel objects\<close>

text \<open>
  A \<^verbatim>\<open>vscode.Disposable\<close> held by a panel is the subscription returned by one of the two
  event registrations of the constructor; it is named by the event and by the handle of
  the native view it was registered on.
\<close>

datatype disposable = OnDidDisposeSub nat | OnDidReceiveMessageSub nat

text \<open>
  The native view (\<^verbatim>\<open>vscode.WebviewPanel\<close>) as the platform keeps it. A listener is the
  closure registered by the constructor; it captures \<^verbatim>\<open>this\<close>, so it is recorded as the
  reference of the panel object that registered it. The constructor is private and runs
  once for each created view, hence a view has at most one listener of each kind.
\<close>

record WebviewPanel =
  viewType :: string
  title :: string
  showColumn :: int
  enableScripts :: bool
  retainContextWhenHidden :: bool
  localResourceRoots :: "string list"
  html :: string
  isDisposed :: bool
  onDidDispose_listener :: "nat option"
  onDidReceiveMessage_listener :: "nat option"

text \<open>The fields of an \<^verbatim>\<open>ExamplePanel\<close> object: \<^verbatim>\<open>_panel\<close>, \<^verbatim>\<open>_extensionUri\<close>, \<^verbatim>\<open>_disposables\<close>.\<close>

record ExamplePanel =
  panel :: nat
  extensionUri :: string
  disposables :: "disposable list"

text \<open>
  The calls made to the platform and the writes of the static field, in program order.
\<close>

datatype effect =
    CreateWebviewPanel nat
  | Reveal nat "int option"
  | PanelDispose nat
  | DisposableDispose disposable
  | ShowInformationMessage jsval
  | PostMessage nat jsval
  | AssignCurrentPanel "nat option"

text \<open>
  The state of the extension host. Panel objects live in a store and are referred to by
  their index, because the static field \<^verbatim>\<open>ExamplePanel.currentPanel\<close> and the listener
  closures alias the same object. \<^verbatim>\<open>activeTextEditor\<close> is \<^verbatim>\<open>None\<close> when no editor is
  active, and otherwise gives the editor's \<^verbatim>\<open>viewColumn\<close>, which may itself be undefined.
  \<^verbatim>\<open>cspSource\<close> and \<^verbatim>\<open>asWebviewUri\<close> are platform services taken as parameters.
\<close>

record world =
  currentPanel :: "nat option"
  instances :: "ExamplePanel list"
  views :: "WebviewPanel list"
  activeTextEditor :: "int option option"
  cspSource :: string
  asWebviewUri :: "string \<Rightarrow> string"
  random_tokens :: "nat \<Rightarrow> string"
  tokens_drawn :: nat
  log :: "effect list"

definition emit :: "effect \<Rightarrow> world \<Rightarrow> world" where
  "emit e w = w\<lparr>log := log w @ [e]\<rparr>"

section \<open>The host message handler\<close>

definition showInformationMessage :: "jsval \<Rightarrow> world \<Rightarrow> world" where
  "showInformationMessage m w = emit (ShowInformationMessage m) w"

definition postMessage :: "nat \<Rightarrow> jsval \<Rightarrow> world \<Rightarrow> world" where
  "postMessage v m w = emit (PostMessage v m) w"

definition dataResponse :: jsval where
  "dataResponse =
     JObj [(''command'', JStr ''dataResponse''),
           (''data'', JObj [(''message'', JStr ''Hello from extension!'')])]"

text \<open>
  The listener passed to \<^verbatim>\<open>onDidReceiveMessage\<close> by the constructor of panel object \<open>i\<close>.
  The \<^verbatim>\<open>switch\<close> compares with strict equality and has no default branch.
\<close>

definition onDidReceiveMessage_handler :: "nat \<Rightarrow> jsval \<Rightarrow> world \<Rightarrow> js_error + world" where
  "onDidReceiveMessage_handler i message w =
     (case get_prop message ''command'' of
        Inl e \<Rightarrow> Inl e
      | Inr c \<Rightarrow>
          if c = JStr ''alert'' then
            (case get_prop message ''text'' of
               Inl e \<Rightarrow> Inl e
             | Inr t \<Rightarrow> Inr (showInformationMessage t w))
          else if c = JStr ''getData'' then
            Inr (postMessage (panel (instances w ! i)) dataResponse w)
          else Inr w)"

section \<open>The webview senders\<close>

text \<open>
  \<^verbatim>\<open>handleSendMessage\<close> and \<^verbatim>\<open>handleGetData\<close> of \<^verbatim>\<open>App.tsx\<close>, as the list of messages
  handed to \<^verbatim>\<open>vscode.postMessage\<close>. The input state is a string; \<^verbatim>\<open>message || d\<close> is \<^verbatim>\<open>d\<close>
  exactly when the string is empty.
\<close>

definition handleSendMessage :: "string \<Rightarrow> jsval list" where
  "handleSendMessage message =
     [JObj [(''command'', JStr ''alert''),
            (''text'', JStr (if message = [] then ''Hello from webview!'' else message))]]"

definition handleGetData :: "jsval list" where
  "handleGetData = [JObj [(''command'', JStr ''getData'')]]"

section \<open>Platform operations used by the panel\<close>

definition set_view :: "nat \<Rightarrow> (WebviewPanel \<Rightarrow> WebviewPanel) \<Rightarrow> world \<Rightarrow> world" where
  "set_view v f w = w\<lparr>views := (views w)[v := f (views w ! v)]\<rparr>"

definition set_instance :: "nat \<Rightarrow> (ExamplePanel \<Rightarrow> ExamplePanel) \<Rightarrow> world \<Rightarrow> world" where
  "set_instance i f w = w\<lparr>instances := (instances w)[i := f (instances w ! i)]\<rparr>"

text \<open>The number of native views that have not been disposed.\<close>

definition live_views :: "world \<Rightarrow> nat" where
  "live_views w = length (filter (\<lambda>p. \<not> isDisposed p) (views w))"

text \<open>
  \<^verbatim>\<open>vscode.Uri.joinPath\<close>: the segments appended, separated by slashes. The platform also
  normalises the resulting path, which is not modelled.
\<close>

definition joinPath :: "string \<Rightarrow> string list \<Rightarrow> string" where
  "joinPath base segs = base @ concat (map (\<lambda>s. CHR ''/'' # s) segs)"

text \<open>
  \<^verbatim>\<open>vscode.window.createWebviewPanel\<close>: a new live view with no listener and empty
  markup; its handle is its position in the platform's list of views.
\<close>

definition createWebviewPanel ::
  "string \<Rightarrow> string \<Rightarrow> int \<Rightarrow> bool \<Rightarrow> bool \<Rightarrow> string list \<Rightarrow> world \<Rightarrow> nat \<times> world" where
  "createWebviewPanel vt ttl col scripts retain roots w =
     (let v = length (views w);
          p = \<lparr>viewType = vt, title = ttl, showColumn = col, enableScripts = scripts,
               retainContextWhenHidden = retain, localResourceRoots = roots, html = [],
               isDisposed = False, onDidDispose_listener = None,
               onDidReceiveMessage_listener = None\<rparr>
      in (v, emit (CreateWebviewPanel v) (w\<lparr>views := views w @ [p]\<rparr>)))"

definition reveal :: "nat \<Rightarrow> int option \<Rightarrow> world \<Rightarrow> world" where
  "reveal v column w = emit (Reveal v column) w"

text \<open>
  Event registration with a disposables array as third argument: the listener is
  subscribed and the subscription's \<^verbatim>\<open>Disposable\<close> is pushed onto the array of object \<open>i\<close>.
\<close>

definition onDidDispose :: "nat \<Rightarrow> nat \<Rightarrow> world \<Rightarrow> world" where
  "onDidDispose v i w =
     set_instance i (\<lambda>this. this\<lparr>disposables := disposables this @ [OnDidDisposeSub v]\<rparr>)
       (set_view v (\<lambda>p. p\<lparr>onDidDispose_listener := Some i\<rparr>) w)"

definition onDidReceiveMessage :: "nat \<Rightarrow> nat \<Rightarrow> world \<Rightarrow> world" where
  "onDidReceiveMessage v i w =
     set_instance i (\<lambda>this. this\<lparr>disposables := disposables this @ [OnDidReceiveMessageSub v]\<rparr>)
       (set_view v (\<lambda>p. p\<lparr>onDidReceiveMessage_listener := Some i\<rparr>) w)"

text \<open>\<^verbatim>\<open>Disposable.dispose()\<close> of a subscription: the call is made and the listener removed.\<close>

fun disposable_dispose :: "disposable \<Rightarrow> world \<Rightarrow> world" where
  "disposable_dispose (OnDidDisposeSub v) w =
     set_view v (\<lambda>p. p\<lparr>onDidDispose_listener := None\<rparr>) (emit (DisposableDispose (OnDidDisposeSub v)) w)"
| "disposable_dispose (OnDidReceiveMessageSub v) w =
     set_view v (\<lambda>p. p\<lparr>onDidReceiveMessage_listener := None\<rparr>)
       (emit (DisposableDispose (OnDidReceiveMessageSub v)) w)"

text \<open>
  Modelled from the spec: \<^verbatim>\<open>getNonce\<close> of \<^verbatim>\<open>src/utils/getNonce.ts\<close>, which is missing. The
  spec only says that it returns a random token; the token of the k-th call is read from
  the world's random source.
\<close>

definition getNonce :: "world \<Rightarrow> string \<times> world" where
  "getNonce w = (random_tokens w (tokens_drawn w), w\<lparr>tokens_drawn := Suc (tokens_drawn w)\<rparr>)"

section \<open>The markup generator\<close>

text \<open>The template literal of \<^verbatim>\<open>_getHtmlForWebview\<close>, with its four interpolated strings.\<close>

definition html_template :: "string \<Rightarrow> string \<Rightarrow> string \<Rightarrow> string \<Rightarrow> string" where
  \<open>html_template csp_source styleUri nonce scriptUri =
     ''<!DOCTYPE html>\<newline><html lang="en">\<newline>  <head>\<newline>    <meta charset="UTF-8">\<newline>''
   @ ''    <meta name="viewport" content="width=device-width, initial-scale=1.0">\<newline>''
   @ ''    <meta http-equiv="Content-Security-Policy" content="default-src 'none'; style-src ''
   @ csp_source
   @ '' 'unsafe-inline'; script-src 'nonce-''
   @ nonce
   @ ''';">\<newline>    <link href="''
   @ styleUri
   @ ''" rel="stylesheet">\<newline>    <title>Example Panel</title>\<newline>  </head>\<newline>  <body>\<newline>''
   @ ''    <div id="root"></div>\<newline>    <script type="module" nonce="''
   @ nonce
   @ ''" src="''
   @ scriptUri
   @ ''"></script>\<newline>  </body>\<newline></html>''\<close>

definition getHtmlForWebview :: "ExamplePanel \<Rightarrow> world \<Rightarrow> string \<times> world" where
  "getHtmlForWebview this w =
     (let scriptUri = asWebviewUri w
            (joinPath (extensionUri this) [''webview-ui'', ''dist'', ''assets'', ''index.js'']);
          styleUri = asWebviewUri w
            (joinPath (extensionUri this) [''webview-ui'', ''dist'', ''assets'', ''index.css'']);
          (nonce, w') = getNonce w
      in (html_template (cspSource w) styleUri nonce scriptUri, w'))"

section \<open>Panel lifecycle\<close>

text \<open>
  \<^verbatim>\<open>new ExamplePanel(panel, extensionUri)\<close> in two steps: the object is allocated with the
  field initialiser \<^verbatim>\<open>_disposables = []\<close>, then the constructor body runs on it.
\<close>

definition allocate :: "nat \<Rightarrow> string \<Rightarrow> world \<Rightarrow> nat \<times> world" where
  "allocate v uri w =
     (length (instances w),
      w\<lparr>instances := instances w @ [\<lparr>panel = v, extensionUri = uri, disposables = []\<rparr>]\<rparr>)"

definition constructor_body :: "nat \<Rightarrow> world \<Rightarrow> world" where
  "constructor_body i w =
     (let this = instances w ! i;
          (markup, w1) = getHtmlForWebview this w;
          w2 = set_view (panel this) (\<lambda>p. p\<lparr>html := markup\<rparr>) w1;
          w3 = onDidDispose (panel this) i w2
      in onDidReceiveMessage (panel this) i w3)"

definition assign_currentPanel :: "nat option \<Rightarrow> world \<Rightarrow> world" where
  "assign_currentPanel r w = emit (AssignCurrentPanel r) (w\<lparr>currentPanel := r\<rparr>)"

text \<open>
  \<^verbatim>\<open>column || vscode.ViewColumn.One\<close>: an undefined or zero column is replaced by
  \<^verbatim>\<open>ViewColumn.One\<close>, which is 1.
\<close>

definition column_or_One :: "int option \<Rightarrow> int" where
  "column_or_One column = (case column of None \<Rightarrow> 1 | Some c \<Rightarrow> if c = 0 then 1 else c)"

text \<open>
  \<^verbatim>\<open>activeTextEditor ? activeTextEditor.viewColumn : undefined\<close>, the first statement of
  \<^verbatim>\<open>createOrShow\<close>.
\<close>

definition active_column :: "world \<Rightarrow> int option" where
  "active_column w = (case activeTextEditor w of None \<Rightarrow> None | Some viewColumn \<Rightarrow> viewColumn)"

definition createOrShow :: "string \<Rightarrow> world \<Rightarrow> world" where
  "createOrShow uri w =
     (let column = active_column w
      in case currentPanel w of
           Some i \<Rightarrow> reveal (panel (instances w ! i)) column w
         | None \<Rightarrow>
             (let (v, w1) = createWebviewPanel ''examplePanel'' ''Example Panel''
                              (column_or_One column) True True
                              [joinPath uri [''out''], joinPath uri [''webview-ui/dist'']] w;
                  (i, w2) = allocate v uri w1;
                  w3 = constructor_body i w2
              in assign_currentPanel (Some i) w3))"

text \<open>
  The \<^verbatim>\<open>while\<close> loop of \<^verbatim>\<open>dispose\<close>: as long as the array of object \<open>i\<close> is not empty,
  its last element is popped and disposed. The elements are \<^verbatim>\<open>Disposable\<close> objects, so the
  test \<^verbatim>\<open>if (disposable)\<close> succeeds for each popped element.
\<close>

function dispose_loop :: "nat \<Rightarrow> world \<Rightarrow> world" where
  "dispose_loop i w =
     (if i < length (instances w) \<and> disposables (instances w ! i) \<noteq> [] then
        (let ds = disposables (instances w ! i);
             w1 = set_instance i (\<lambda>this. this\<lparr>disposables := butlast ds\<rparr>) w
         in dispose_loop i (disposable_dispose (last ds) w1))
      else w)"
  by pat_completeness auto
termination
proof (relation "measure (\<lambda>(i, w). length (disposables (instances w ! i)))")
  show "wf (measure (\<lambda>(i, w). length (disposables (instances w ! i))))"
    by simp
next
  fix i :: nat and w :: world and ds w1
  assume a: "i < length (instances w) \<and> disposables (instances w ! i) \<noteq> []"
    and ds: "ds = disposables (instances w ! i)"
    and w1: "w1 = set_instance i (\<lambda>this. this\<lparr>disposables := butlast ds\<rparr>) w"
  have "instances (disposable_dispose (last ds) w1) = instances w1"
    by (cases "last ds") (simp_all add: set_view_def emit_def)
  with a ds w1
  show "((i, disposable_dispose (last ds) w1), (i, w)) \<in>
          measure (\<lambda>(i, w). length (disposables (instances w ! i)))"
    by (simp add: set_instance_def)
qed

text \<open>
  \<^verbatim>\<open>dispose\<close> of panel object \<open>i\<close>, and \<^verbatim>\<open>WebviewPanel.dispose\<close> of the platform. Disposing a
  live view marks it disposed and fires its \<^verbatim>\<open>onDidDispose\<close> event, which runs the
  listener \<^verbatim>\<open>() => this.dispose()\<close> registered by the constructor if it is still subscribed;
  disposing a view that is already disposed does nothing. The user closing the panel is
  the platform calling \<^verbatim>\<open>WebviewPanel_dispose\<close>.
\<close>

function dispose :: "nat \<Rightarrow> world \<Rightarrow> world"
  and WebviewPanel_dispose :: "nat \<Rightarrow> world \<Rightarrow> world" where
  "dispose i w =
     (let w1 = assign_currentPanel None w;
          w2 = WebviewPanel_dispose (panel (instances w1 ! i)) w1
      in dispose_loop i w2)"
| "WebviewPanel_dispose v w =
     (let w0 = emit (PanelDispose v) w
      in if v < length (views w0) \<and> \<not> isDisposed (views w0 ! v) then
           (let w1 = set_view v (\<lambda>p. p\<lparr>isDisposed := True\<rparr>) w0
            in case onDidDispose_listener (views w1 ! v) of
                 None \<Rightarrow> w1
               | Some i \<Rightarrow> dispose i w1)
         else w0)"
  by pat_completeness auto
termination
proof (relation "measure (\<lambda>x. case x of Inl (i, w) \<Rightarrow> 2 * live_views w + 1
                                      | Inr (v, w) \<Rightarrow> 2 * live_views w)")
  show "wf (measure (\<lambda>x. case x of Inl (i, w) \<Rightarrow> 2 * live_views w + 1
                                   | Inr (v, w) \<Rightarrow> 2 * live_views w))"
    by simp
next
  fix i :: nat and w :: world and w1
  assume "w1 = assign_currentPanel None w"
  then show "(Inr (panel (instances w1 ! i), w1), Inl (i, w)) \<in>
          measure (\<lambda>x. case x of Inl (i, w) \<Rightarrow> 2 * live_views w + 1
                                | Inr (v, w) \<Rightarrow> 2 * live_views w)"
    by (simp add: assign_currentPanel_def emit_def live_views_def)
next
  fix v :: nat and w :: world and w0 w1 i
  assume w0: "w0 = emit (PanelDispose v) w"
    and live: "v < length (views w0) \<and> \<not> isDisposed (views w0 ! v)"
    and w1: "w1 = set_view v (\<lambda>p. p\<lparr>isDisposed := True\<rparr>) w0"
  have mark: "k < length xs \<Longrightarrow> \<not> isDisposed (xs ! k) \<Longrightarrow>
          length (filter (\<lambda>p. \<not> isDisposed p) (xs[k := (xs ! k)\<lparr>isDisposed := True\<rparr>]))
          < length (filter (\<lambda>p. \<not> isDisposed p) xs)" for k and xs :: "WebviewPanel list"
  proof (induction xs arbitrary: k)
    case Nil
    then show ?case by simp
  next
    case (Cons x xs)
    show ?case
    proof (cases k)
      case 0
      with Cons.prems show ?thesis by simp
    next
      case (Suc n)
      with Cons.prems have "n < length xs" and "\<not> isDisposed (xs ! n)"
        by simp_all
      from Cons.IH [OF this] Suc show ?thesis by simp
    qed
  qed
  from live w0 w1 mark [of v "views w"] have "live_views w1 < live_views w"
    by (simp add: live_views_def set_view_def emit_def)
  then show "(Inl (i, w1), Inr (v, w)) \<in>
          measure (\<lambda>x. case x of Inl (i, w) \<Rightarrow> 2 * live_views w + 1
                                | Inr (v, w) \<Rightarrow> 2 * live_views w)"
    by simp
qed

declare dispose_loop.simps [simp del] dispose.simps [simp del] WebviewPanel_dispose.simps [simp del]

section \<open>The events of the extension host\<close>

text \<open>
  What can happen to a running host: the open-panel command of \<^verbatim>\<open>extension.ts\<close>, whose
  callback calls \<^verbatim>\<open>createOrShow\<close>; the user closing a view, which is the platform disposing
  it; \<^verbatim>\<open>dispose()\<close> called on the current panel object; a webview posting a message, which
  the platform hands to the listener subscribed on that view, an exception of the listener
  being caught by the platform; and the active editor changing.
\<close>

datatype event =
    OpenPanelCommand
  | UserClosesPanel nat
  | DisposeCurrent
  | WebviewPosts nat jsval
  | EditorChange "int option option"

definition receive_message :: "nat \<Rightarrow> jsval \<Rightarrow> world \<Rightarrow> world" where
  "receive_message v message w =
     (if v < length (views w) \<and> \<not> isDisposed (views w ! v) then
        (case onDidReceiveMessage_listener (views w ! v) of
           None \<Rightarrow> w
         | Some i \<Rightarrow>
             (case onDidReceiveMessage_handler i message w of Inl e \<Rightarrow> w | Inr w' \<Rightarrow> w'))
      else w)"

fun step :: "string \<Rightarrow> event \<Rightarrow> world \<Rightarrow> world" where
  "step uri OpenPanelCommand w = createOrShow uri w"
| "step uri (UserClosesPanel v) w = WebviewPanel_dispose v w"
| "step uri DisposeCurrent w = (case currentPanel w of None \<Rightarrow> w | Some i \<Rightarrow> dispose i w)"
| "step uri (WebviewPosts v message) w = receive_message v message w"
| "step uri (EditorChange e) w = w\<lparr>activeTextEditor := e\<rparr>"

definition run :: "string \<Rightarrow> event list \<Rightarrow> world \<Rightarrow> world" where
  "run uri evs w = fold (step uri) evs w"

section \<open>Observations\<close>

text \<open>The \<^verbatim>\<open>Disposable.dispose()\<close> calls of a trace, in order.\<close>

fun cleanup_calls :: "effect list \<Rightarrow> disposable list" where
  "cleanup_calls [] = []"
| "cleanup_calls (DisposableDispose d # es) = d # cleanup_calls es"
| "cleanup_calls (e # es) = cleanup_calls es"

text \<open>
  A release is the disposal of a native view or of an owned cleanup action. A trace clears
  the singleton after releasing when no release follows the first write of \<^verbatim>\<open>undefined\<close>
  to \<^verbatim>\<open>currentPanel\<close>.
\<close>

fun is_release :: "effect \<Rightarrow> bool" where
  "is_release (PanelDispose v) = True"
| "is_release (DisposableDispose d) = True"
| "is_release e = False"

definition clears_after_releasing :: "effect list \<Rightarrow> bool" where
  "clears_after_releasing tr =
     list_all (\<lambda>e. \<not> is_release e) (dropWhile (\<lambda>e. e \<noteq> AssignCurrentPanel None) tr)"

text \<open>The native view a subscription was registered on.\<close>

fun subscribed_view :: "disposable \<Rightarrow> nat" where
  "subscribed_view (OnDidDisposeSub v) = v"
| "subscribed_view (OnDidReceiveMessageSub v) = v"

text \<open>
  Panel object \<open>i\<close> exists, its \<^verbatim>\<open>_panel\<close> is a view of the platform, and that view, unless it
  is disposed already, has no \<^verbatim>\<open>onDidDispose\<close> listener but the one of object \<open>i\<close>.
\<close>

definition owns_view :: "world \<Rightarrow> nat \<Rightarrow> bool" where
  "owns_view w i =
     (i < length (instances w) \<and> panel (instances w ! i) < length (views w) \<and>
      (isDisposed (views w ! panel (instances w ! i)) \<or>
       onDidDispose_listener (views w ! panel (instances w ! i)) = None \<or>
       onDidDispose_listener (views w ! panel (instances w ! i)) = Some i))"

text \<open>
  The singleton invariant: without a current panel no view is live; with a current panel,
  its view is the only live one and carries the \<^verbatim>\<open>onDidDispose\<close> listener of that panel.
\<close>

definition single_panel :: "world \<Rightarrow> bool" where
  "single_panel w =
     (case currentPanel w of
        None \<Rightarrow> live_views w = 0
      | Some i \<Rightarrow>
          i < length (instances w) \<and> panel (instances w ! i) < length (views w) \<and>
          \<not> isDisposed (views w ! panel (instances w ! i)) \<and>
          onDidDispose_listener (views w ! panel (instances w ! i)) = Some i \<and>
          live_views w = 1)"

section \<open>Reading a markup document\<close>

text \<open>
  What the claims about the generated markup speak of, read off the document string: how
  often a tag opens, what follows its first occurrence, and the content security policy,
  which is the \<^verbatim>\<open>content\<close> attribute of the \<^verbatim>\<open>Content-Security-Policy\<close> meta element, split into
  directives at semicolons and into a name and source expressions at spaces.
\<close>

fun count_occ :: "string \<Rightarrow> string \<Rightarrow> nat" where
  "count_occ pat [] = 0"
| "count_occ pat (c # cs) = (if prefix pat (c # cs) then 1 else 0) + count_occ pat cs"

fun find_after :: "string \<Rightarrow> string \<Rightarrow> string option" where
  "find_after pat [] = None"
| "find_after pat (c # cs) =
     (if prefix pat (c # cs) then Some (drop (length pat) (c # cs)) else find_after pat cs)"

definition csp_of_document :: "string \<Rightarrow> string option" where
  \<open>csp_of_document doc =
     map_option (takeWhile (\<lambda>c. c \<noteq> CHR 0x22))
       (find_after ''<meta http-equiv="Content-Security-Policy" content="'' doc)\<close>

fun split_on :: "char \<Rightarrow> string \<Rightarrow> string list" where
  "split_on sep [] = [[]]"
| "split_on sep (c # cs) =
     (if c = sep then [] # split_on sep cs
      else (case split_on sep cs of [] \<Rightarrow> [[c]] | w # ws \<Rightarrow> (c # w) # ws))"

definition words_of :: "string \<Rightarrow> string list" where
  "words_of s = filter (\<lambda>w. w \<noteq> []) (split_on CHR '' '' s)"

definition parse_csp :: "string \<Rightarrow> (string \<times> string list) list" where
  "parse_csp policy =
     map (\<lambda>ws. (hd ws, tl ws))
       (filter (\<lambda>ws. ws \<noteq> []) (map words_of (split_on CHR '';'' policy)))"

definition csp_directives :: "string \<Rightarrow> (string \<times> string list) list option" where
  "csp_directives doc = map_option parse_csp (csp_of_document doc)"

text \<open>A keyword source expression, written in single quotes in a policy.\<close>

definition quoted :: "string \<Rightarrow> string" where
  "quoted s = CHR 0x27 # s @ [CHR 0x27]"

section \<open>A concrete host state\<close>

text \<open>
  A host with no panel yet and no active editor, used to run the definitions on concrete
  inputs; \<open>opened_world\<close> is that host after the open-panel command of \<^verbatim>\<open>extension.ts\<close> ran
  once.
\<close>

definition example_world :: world where
  "example_world =
     \<lparr>currentPanel = None, instances = [], views = [], activeTextEditor = None,
      cspSource = ''https://cdn.example'',
      asWebviewUri = (\<lambda>u. ''https://cdn.example'' @ u),
      random_tokens = (\<lambda>k. if k = 0 then ''a1b2'' else ''c3d4''),
      tokens_drawn = 0, log = []\<rparr>"

definition opened_world :: world where
  "opened_world = createOrShow ''/ext'' example_world"

lemmas lifecycle_defs =
  createOrShow_def createWebviewPanel_def allocate_def constructor_body_def
  getHtmlForWebview_def getNonce_def set_view_def set_instance_def onDidDispose_def
  onDidReceiveMessage_def assign_currentPanel_def emit_def reveal_def column_or_One_def
  active_column_def

lemma opened_world_panel: "panel (instances opened_world ! 0) = 0"
  by (simp add: opened_world_def example_world_def lifecycle_defs Let_def)

lemma handler_null_message: "onDidReceiveMessage_handler i JNull w = Inl TypeError"
  by (simp add: onDidReceiveMessage_handler_def)

section \<open>Facts about the lifecycle operations\<close>

lemma map_update_same:
  "(\<And>x. f (g x) = f x) \<Longrightarrow> map f (xs[k := g (xs ! k)]) = map f xs"
  by (induction xs arbitrary: k) (auto split: nat.splits)

lemma disposable_dispose_instances [simp]:
  "instances (disposable_dispose d w) = instances w"
  by (cases d) (simp_all add: set_view_def emit_def)

lemma disposable_dispose_log [simp]:
  "log (disposable_dispose d w) = log w @ [DisposableDispose d]"
  by (cases d) (simp_all add: set_view_def emit_def)

lemma disposable_dispose_currentPanel [simp]:
  "currentPanel (disposable_dispose d w) = currentPanel w"
  by (cases d) (simp_all add: set_view_def emit_def)

lemma disposable_dispose_isDisposed [simp]:
  "map isDisposed (views (disposable_dispose d w)) = map isDisposed (views w)"
  by (cases d) (simp_all add: set_view_def emit_def map_update_same)

lemma dispose_loop_empty:
  "disposables (instances w ! i) = [] \<Longrightarrow> dispose_loop i w = w"
  by (simp add: dispose_loop.simps)

lemma dispose_loop_stop:
  "\<not> (i < length (instances w) \<and> disposables (instances w ! i) \<noteq> []) \<Longrightarrow>
   dispose_loop i w = w"
  by (subst dispose_loop.simps) (rule if_not_P)

lemma dispose_loop_step:
  "i < length (instances w) \<Longrightarrow> disposables (instances w ! i) \<noteq> [] \<Longrightarrow>
   dispose_loop i w =
     dispose_loop i (disposable_dispose (last (disposables (instances w ! i)))
       (set_instance i (\<lambda>this. this\<lparr>disposables := butlast (disposables (instances w ! i))\<rparr>) w))"
  by (subst dispose_loop.simps) (simp add: Let_def)

lemma dispose_loop_log:
  "i < length (instances w) \<Longrightarrow>
   log (dispose_loop i w) = log w @ map DisposableDispose (rev (disposables (instances w ! i)))"
proof (induction i w rule: dispose_loop.induct)
  case (1 i w)
  show ?case
  proof (cases "disposables (instances w ! i) = []")
    case True
    then show ?thesis by (simp add: dispose_loop_empty)
  next
    case False
    let ?ds = "disposables (instances w ! i)"
    let ?w1 = "set_instance i (\<lambda>this. this\<lparr>disposables := butlast ?ds\<rparr>) w"
    have len: "i < length (instances (disposable_dispose (last ?ds) ?w1))"
      using "1.prems" by (simp add: set_instance_def)
    have ih: "log (dispose_loop i (disposable_dispose (last ?ds) ?w1)) =
        log (disposable_dispose (last ?ds) ?w1) @
        map DisposableDispose (rev (disposables (instances (disposable_dispose (last ?ds) ?w1) ! i)))"
      using "1.IH" [OF _ refl refl len] False "1.prems" by simp
    have "map DisposableDispose (rev ?ds) =
        DisposableDispose (last ?ds) # map DisposableDispose (rev (butlast ?ds))"
    proof -
      from False obtain bs l where "?ds = bs @ [l]"
        by (metis append_butlast_last_id)
      then show ?thesis by simp
    qed
    with dispose_loop_step [OF "1.prems" False] ih "1.prems" show ?thesis
      by (simp add: set_instance_def)
  qed
qed

lemma dispose_loop_instances:
  "instances (dispose_loop i w) = (instances w)[i := (instances w ! i)\<lparr>disposables := []\<rparr>]"
proof (induction i w rule: dispose_loop.induct)
  case (1 i w)
  show ?case
  proof (cases "i < length (instances w) \<and> disposables (instances w ! i) \<noteq> []")
    case True
    with "1.IH" [OF True refl refl] dispose_loop_step [of i w] show ?thesis
      by (simp add: set_instance_def)
  next
    case False
    then have "dispose_loop i w = w"
      by (rule dispose_loop_stop)
    moreover have "(instances w)[i := (instances w ! i)\<lparr>disposables := []\<rparr>] = instances w"
    proof (cases "i < length (instances w)")
      case True
      with False have e: "disposables (instances w ! i) = []" by simp
      have "(instances w ! i)\<lparr>disposables := disposables (instances w ! i)\<rparr> = instances w ! i"
        by simp
      with e have "(instances w ! i)\<lparr>disposables := []\<rparr> = instances w ! i"
        by (simp only:)
      then show ?thesis by (simp only: list_update_id)
    next
      case False
      then show ?thesis by (simp add: list_update_beyond)
    qed
    ultimately show ?thesis by (simp only:)
  qed
qed

lemma dispose_loop_currentPanel:
  "currentPanel (dispose_loop i w) = currentPanel w"
proof (induction i w rule: dispose_loop.induct)
  case (1 i w)
  show ?case
  proof (cases "i < length (instances w) \<and> disposables (instances w ! i) \<noteq> []")
    case True
    with "1.IH" [OF True refl refl] dispose_loop_step [of i w] show ?thesis
      by (simp add: set_instance_def)
  next
    case False
    then have "dispose_loop i w = w"
      by (rule dispose_loop_stop)
    then show ?thesis by simp
  qed
qed

lemma dispose_loop_isDisposed:
  "map isDisposed (views (dispose_loop i w)) = map isDisposed (views w)"
proof (induction i w rule: dispose_loop.induct)
  case (1 i w)
  show ?case
  proof (cases "i < length (instances w) \<and> disposables (instances w ! i) \<noteq> []")
    case True
    with "1.IH" [OF True refl refl] dispose_loop_step [of i w] show ?thesis
      by (simp add: set_instance_def)
  next
    case False
    then have "dispose_loop i w = w"
      by (rule dispose_loop_stop)
    then show ?thesis by simp
  qed
qed

lemma dispose_loop_idem: "dispose_loop i (dispose_loop i w) = dispose_loop i w"
proof (cases "i < length (instances w)")
  case True
  then have "disposables (instances (dispose_loop i w) ! i) = []"
    by (simp add: dispose_loop_instances)
  then show ?thesis by (rule dispose_loop_empty)
next
  case False
  then have "dispose_loop i w = w"
    by (simp add: dispose_loop_stop)
  then show ?thesis by simp
qed

lemma dispose_cases:
  assumes "owns_view w i"
  shows "dispose i w =
    (let v = panel (instances w ! i);
         w0 = emit (PanelDispose v) (assign_currentPanel None w)
     in if isDisposed (views w ! v) then dispose_loop i w0
        else if onDidDispose_listener (views w ! v) = None
        then dispose_loop i (set_view v (\<lambda>p. p\<lparr>isDisposed := True\<rparr>) w0)
        else dispose_loop i (emit (PanelDispose v) (assign_currentPanel None
               (set_view v (\<lambda>p. p\<lparr>isDisposed := True\<rparr>) w0))))"
proof -
  let ?v = "panel (instances w ! i)"
  let ?w0 = "emit (PanelDispose ?v) (assign_currentPanel None w)"
  let ?wm = "set_view ?v (\<lambda>p. p\<lparr>isDisposed := True\<rparr>) ?w0"
  from assms have i: "i < length (instances w)" and v: "?v < length (views w)"
    and l: "isDisposed (views w ! ?v) \<or> onDidDispose_listener (views w ! ?v) = None \<or>
       onDidDispose_listener (views w ! ?v) = Some i"
    by (simp_all add: owns_view_def)
  have outer: "dispose i w = dispose_loop i (WebviewPanel_dispose ?v (assign_currentPanel None w))"
    by (subst dispose.simps) (simp add: Let_def assign_currentPanel_def emit_def)
  show ?thesis
  proof (cases "isDisposed (views w ! ?v)")
    case True
    then have "WebviewPanel_dispose ?v (assign_currentPanel None w) = ?w0"
      by (subst WebviewPanel_dispose.simps) (simp add: Let_def assign_currentPanel_def emit_def)
    with outer True show ?thesis by (simp add: Let_def)
  next
    case live: False
    show ?thesis
    proof (cases "onDidDispose_listener (views w ! ?v)")
      case None
      with live v have "WebviewPanel_dispose ?v (assign_currentPanel None w) = ?wm"
        by (subst WebviewPanel_dispose.simps)
          (simp add: Let_def assign_currentPanel_def emit_def set_view_def)
      with outer live None show ?thesis by (simp add: Let_def)
    next
      case (Some j)
      with l live have j: "j = i" by simp
      from live v Some j
      have fire: "WebviewPanel_dispose ?v (assign_currentPanel None w) = dispose i ?wm"
        by (subst WebviewPanel_dispose.simps)
          (simp add: Let_def assign_currentPanel_def emit_def set_view_def)
      have pm: "panel (instances (assign_currentPanel None ?wm) ! i) = ?v"
        by (simp add: assign_currentPanel_def emit_def set_view_def)
      have "WebviewPanel_dispose ?v (assign_currentPanel None ?wm) =
          emit (PanelDispose ?v) (assign_currentPanel None ?wm)"
        using v by (subst WebviewPanel_dispose.simps)
          (simp add: Let_def assign_currentPanel_def emit_def set_view_def)
      with pm have inner: "dispose i ?wm =
          dispose_loop i (emit (PanelDispose ?v) (assign_currentPanel None ?wm))"
        by (subst dispose.simps) (simp add: Let_def)
      from outer fire inner live Some show ?thesis
        by (simp add: Let_def dispose_loop_idem)
    qed
  qed
qed

lemma dispose_log:
  assumes "owns_view w i"
  shows "log (dispose i w) =
    log w @ [AssignCurrentPanel None, PanelDispose (panel (instances w ! i))] @
    (if \<not> isDisposed (views w ! panel (instances w ! i)) \<and>
        onDidDispose_listener (views w ! panel (instances w ! i)) = Some i
     then [AssignCurrentPanel None, PanelDispose (panel (instances w ! i))] else []) @
    map DisposableDispose (rev (disposables (instances w ! i)))"
proof -
  from assms have i: "i < length (instances w)"
    and l: "isDisposed (views w ! panel (instances w ! i)) \<or>
       onDidDispose_listener (views w ! panel (instances w ! i)) = None \<or>
       onDidDispose_listener (views w ! panel (instances w ! i)) = Some i"
    by (simp_all add: owns_view_def)
  from i l show ?thesis
    by (auto simp: dispose_cases [OF assms] Let_def dispose_loop_log
        assign_currentPanel_def emit_def set_view_def)
qed

lemma dispose_instances:
  assumes "owns_view w i"
  shows "instances (dispose i w) = (instances w)[i := (instances w ! i)\<lparr>disposables := []\<rparr>]"
  by (simp add: dispose_cases [OF assms] Let_def dispose_loop_instances
      assign_currentPanel_def emit_def set_view_def)

lemma dispose_currentPanel:
  assumes "owns_view w i"
  shows "currentPanel (dispose i w) = None"
  by (simp add: dispose_cases [OF assms] Let_def dispose_loop_currentPanel
      assign_currentPanel_def emit_def set_view_def)

lemma dispose_isDisposed:
  assumes "owns_view w i"
  shows "map isDisposed (views (dispose i w)) =
         (map isDisposed (views w))[panel (instances w ! i) := True]"
proof (cases "isDisposed (views w ! panel (instances w ! i))")
  case True
  from assms have v: "panel (instances w ! i) < length (views w)"
    by (simp add: owns_view_def)
  with True have "(map isDisposed (views w))[panel (instances w ! i) := True] = map isDisposed (views w)"
    by (simp add: list_eq_iff_nth_eq nth_list_update)
  moreover from True have "map isDisposed (views (dispose i w)) = map isDisposed (views w)"
    by (simp add: dispose_cases [OF assms] Let_def dispose_loop_isDisposed
        assign_currentPanel_def emit_def)
  ultimately show ?thesis by (simp only:)
next
  case False
  then show ?thesis
    by (simp add: dispose_cases [OF assms] Let_def dispose_loop_isDisposed
        assign_currentPanel_def emit_def set_view_def map_update)
qed

lemma createOrShow_Some:
  "currentPanel w = Some i \<Longrightarrow>
   createOrShow uri w = w\<lparr>log := log w @ [Reveal (panel (instances w ! i)) (active_column w)]\<rparr>"
  by (simp add: createOrShow_def reveal_def emit_def)

lemma createOrShow_None:
  "currentPanel w = None \<Longrightarrow>
   createOrShow uri w =
     w\<lparr>currentPanel := Some (length (instances w)),
       instances := instances w @
         [\<lparr>panel = length (views w), extensionUri = uri,
           disposables = [OnDidDisposeSub (length (views w)),
                          OnDidReceiveMessageSub (length (views w))]\<rparr>],
       views := views w @
         [\<lparr>viewType = ''examplePanel'', title = ''Example Panel'',
           showColumn = column_or_One (active_column w), enableScripts = True,
           retainContextWhenHidden = True,
           localResourceRoots = [joinPath uri [''out''], joinPath uri [''webview-ui/dist'']],
           html = html_template (cspSource w)
             (asWebviewUri w (joinPath uri [''webview-ui'', ''dist'', ''assets'', ''index.css'']))
             (random_tokens w (tokens_drawn w))
             (asWebviewUri w (joinPath uri [''webview-ui'', ''dist'', ''assets'', ''index.js''])),
           isDisposed = False,
           onDidDispose_listener = Some (length (instances w)),
           onDidReceiveMessage_listener = Some (length (instances w))\<rparr>],
       tokens_drawn := Suc (tokens_drawn w),
       log := log w @ [CreateWebviewPanel (length (views w)),
                       AssignCurrentPanel (Some (length (instances w)))]\<rparr>"
  by (simp add: createOrShow_def createWebviewPanel_def allocate_def constructor_body_def
      getHtmlForWebview_def getNonce_def set_view_def set_instance_def onDidDispose_def
      onDidReceiveMessage_def assign_currentPanel_def emit_def Let_def)

lemma live_views_map: "live_views w = length (filter Not (map isDisposed (views w)))"
  by (simp add: live_views_def filter_map comp_def)

lemma count_mark:
  "k < length bs \<Longrightarrow> \<not> bs ! k \<Longrightarrow>
   Suc (length (filter Not (bs[k := True]))) = length (filter Not bs)"
proof (induction bs arbitrary: k)
  case Nil
  then show ?case by simp
next
  case (Cons b bs)
  show ?case
  proof (cases k)
    case 0
    with Cons.prems show ?thesis by simp
  next
    case (Suc n)
    with Cons.prems have "n < length bs" and "\<not> bs ! n" by simp_all
    from Cons.IH [OF this] Suc show ?thesis by simp
  qed
qed

lemma count_zero_all: "length (filter Not bs) = 0 \<Longrightarrow> k < length bs \<Longrightarrow> bs ! k"
  by (auto simp: filter_empty_conv)

lemma live_unique:
  assumes "length (filter Not bs) = 1" and "k < length bs" and "\<not> bs ! k"
    and "j < length bs" and "\<not> bs ! j"
  shows "j = k"
proof (rule ccontr)
  assume ne: "j \<noteq> k"
  from count_mark [OF assms(2,3)] assms(1) have z: "length (filter Not (bs[k := True])) = 0"
    by simp
  from assms(4) have "j < length (bs[k := True])" by simp
  from count_zero_all [OF z this] ne assms(5) show False by simp
qed

lemma handler_state:
  assumes "onDidReceiveMessage_handler i message w = Inr w'"
  shows "currentPanel w' = currentPanel w \<and> instances w' = instances w \<and> views w' = views w"
  using assms
  unfolding onDidReceiveMessage_handler_def showInformationMessage_def postMessage_def emit_def
  by (auto split: sum.splits if_splits)

lemma single_panel_cong:
  "currentPanel w' = currentPanel w \<Longrightarrow> instances w' = instances w \<Longrightarrow> views w' = views w \<Longrightarrow>
   single_panel w' = single_panel w"
  by (simp add: single_panel_def live_views_def cong: option.case_cong)

lemma single_panel_log [simp]: "single_panel (w\<lparr>log := es\<rparr>) = single_panel w"
  by (rule single_panel_cong) simp_all

lemma single_panel_editor [simp]: "single_panel (w\<lparr>activeTextEditor := e\<rparr>) = single_panel w"
  by (rule single_panel_cong) simp_all

lemma single_panel_receive:
  assumes "single_panel w"
  shows "single_panel (receive_message v message w)"
proof (cases "v < length (views w) \<and> \<not> isDisposed (views w ! v)")
  case False
  then have "receive_message v message w = w"
    unfolding receive_message_def by (rule if_not_P)
  with assms show ?thesis by simp
next
  case True
  show ?thesis
  proof (cases "onDidReceiveMessage_listener (views w ! v)")
    case None
    with True have "receive_message v message w = w"
      by (simp add: receive_message_def)
    with assms show ?thesis by simp
  next
    case (Some i)
    show ?thesis
    proof (cases "onDidReceiveMessage_handler i message w")
      case (Inl e)
      with True Some have "receive_message v message w = w"
        by (simp add: receive_message_def)
      with assms show ?thesis by simp
    next
      case (Inr w')
      with True Some have r: "receive_message v message w = w'"
        by (simp add: receive_message_def)
      from handler_state [OF Inr] have "single_panel w' = single_panel w"
        by (intro single_panel_cong) simp_all
      with r assms show ?thesis by simp
    qed
  qed
qed

lemma single_panel_live: "single_panel w \<Longrightarrow> live_views w \<le> 1"
  by (simp add: single_panel_def split: option.splits)

lemma single_panel_createOrShow:
  assumes "single_panel w"
  shows "single_panel (createOrShow uri w) \<and> live_views (createOrShow uri w) = 1"
proof (cases "currentPanel w")
  case None
  with assms have "live_views w = 0" by (simp add: single_panel_def)
  then show ?thesis
    by (simp add: createOrShow_None [OF None] single_panel_def live_views_def nth_append)
next
  case (Some i)
  with assms show ?thesis
    by (simp add: createOrShow_Some [OF Some] single_panel_def live_views_def)
qed

lemma single_panel_owns: "single_panel w \<Longrightarrow> currentPanel w = Some i \<Longrightarrow> owns_view w i"
  by (simp add: single_panel_def owns_view_def)

lemma all_disposed_after_mark:
  assumes "live_views w = 1" and "v < length (views w)" and "\<not> isDisposed (views w ! v)"
    and "map isDisposed (views w') = (map isDisposed (views w))[v := True]"
  shows "live_views w' = 0"
proof -
  from assms(2,3) have "Suc (length (filter Not ((map isDisposed (views w))[v := True]))) =
      length (filter Not (map isDisposed (views w)))"
    by (intro count_mark) simp_all
  with assms(1,4) show ?thesis by (simp add: live_views_map)
qed

lemma single_panel_dispose:
  assumes "single_panel w" and "currentPanel w = Some i"
  shows "single_panel (dispose i w) \<and> live_views (dispose i w) = 0"
proof -
  from assms have own: "owns_view w i" by (rule single_panel_owns)
  from assms have one: "live_views w = 1" and v: "panel (instances w ! i) < length (views w)"
    and live: "\<not> isDisposed (views w ! panel (instances w ! i))"
    by (simp_all add: single_panel_def)
  have "live_views (dispose i w) = 0"
    by (rule all_disposed_after_mark [OF one v live dispose_isDisposed [OF own]])
  then show ?thesis
    by (simp add: single_panel_def dispose_currentPanel [OF own])
qed

lemma single_panel_WebviewPanel_dispose:
  assumes "single_panel w"
  shows "single_panel (WebviewPanel_dispose v w)"
proof (cases "v < length (views w) \<and> \<not> isDisposed (views w ! v)")
  case False
  then have "WebviewPanel_dispose v w = emit (PanelDispose v) w"
    by (subst WebviewPanel_dispose.simps) (auto simp: Let_def emit_def)
  with assms show ?thesis by (simp add: emit_def)
next
  case True
  then have v: "v < length (views w)" and live: "\<not> isDisposed (views w ! v)" by simp_all
  have pos: "live_views w \<noteq> 0"
  proof
    assume "live_views w = 0"
    then have "length (filter Not (map isDisposed (views w))) = 0"
      by (simp add: live_views_map)
    from count_zero_all [OF this, of v] v live show False by simp
  qed
  with assms obtain i where cur: "currentPanel w = Some i"
    by (cases "currentPanel w") (simp_all add: single_panel_def)
  with assms have i: "i < length (instances w)" and pv: "panel (instances w ! i) < length (views w)"
    and plive: "\<not> isDisposed (views w ! panel (instances w ! i))"
    and lis: "onDidDispose_listener (views w ! panel (instances w ! i)) = Some i"
    and one: "live_views w = 1"
    by (simp_all add: single_panel_def)
  have eq: "v = panel (instances w ! i)"
    by (rule live_unique [of "map isDisposed (views w)"])
      (use one pv plive v live in \<open>simp_all add: live_views_map\<close>)
  let ?wm = "set_view v (\<lambda>p. p\<lparr>isDisposed := True\<rparr>) (emit (PanelDispose v) w)"
  have fire: "WebviewPanel_dispose v w = dispose i ?wm"
    using v live lis eq
    by (subst WebviewPanel_dispose.simps) (simp add: Let_def emit_def set_view_def)
  have own: "owns_view ?wm i"
    using i pv eq by (simp add: owns_view_def set_view_def emit_def)
  have "map isDisposed (views (dispose i ?wm)) = (map isDisposed (views w))[v := True]"
    using dispose_isDisposed [OF own] eq
    by (simp add: set_view_def emit_def map_update)
  from all_disposed_after_mark [OF one v live this]
  have "live_views (dispose i ?wm) = 0" .
  with fire show ?thesis
    by (simp add: single_panel_def dispose_currentPanel [OF own])
qed

lemma single_panel_step: "single_panel w \<Longrightarrow> single_panel (step uri e w)"
proof (cases e)
  case OpenPanelCommand
  assume "single_panel w"
  with OpenPanelCommand show ?thesis by (simp add: single_panel_createOrShow)
next
  case (UserClosesPanel v)
  assume "single_panel w"
  with UserClosesPanel show ?thesis by (simp add: single_panel_WebviewPanel_dispose)
next
  case DisposeCurrent
  assume "single_panel w"
  with DisposeCurrent show ?thesis
    by (cases "currentPanel w") (simp_all add: single_panel_dispose)
next
  case (WebviewPosts v m)
  assume "single_panel w"
  with WebviewPosts show ?thesis by (simp add: single_panel_receive)
next
  case (EditorChange c)
  assume "single_panel w"
  with EditorChange show ?thesis by simp
qed

lemma single_panel_run: "single_panel w \<Longrightarrow> single_panel (run uri evs w)"
  unfolding run_def by (induction evs arbitrary: w) (simp_all add: single_panel_step)

lemma cleanup_calls_append [simp]:
  "cleanup_calls (xs @ ys) = cleanup_calls xs @ cleanup_calls ys"
  by (induction xs rule: cleanup_calls.induct) simp_all

lemma cleanup_calls_map [simp]: "cleanup_calls (map DisposableDispose ds) = ds"
  by (induction ds) simp_all

lemma example_world_single: "single_panel example_world"
  by (simp add: single_panel_def example_world_def live_views_def)

lemma example_world_current: "currentPanel example_world = None"
  by (simp add: example_world_def)

lemma opened_world_eq:
  "opened_world = example_world
     \<lparr>currentPanel := Some 0,
       instances := [\<lparr>panel = 0, extensionUri = ''/ext'',
           disposables = [OnDidDisposeSub 0, OnDidReceiveMessageSub 0]\<rparr>],
       views := [\<lparr>viewType = ''examplePanel'', title = ''Example Panel'',
           showColumn = 1, enableScripts = True, retainContextWhenHidden = True,
           localResourceRoots = [''/ext/out'', ''/ext/webview-ui/dist''],
           html = html_template ''https://cdn.example''
             ''https://cdn.example/ext/webview-ui/dist/assets/index.css'' ''a1b2''
             ''https://cdn.example/ext/webview-ui/dist/assets/index.js'',
           isDisposed = False, onDidDispose_listener = Some 0,
           onDidReceiveMessage_listener = Some 0\<rparr>],
       tokens_drawn := 1,
       log := [CreateWebviewPanel 0, AssignCurrentPanel (Some 0)]\<rparr>"
  unfolding opened_world_def
  by (simp add: createOrShow_None [OF example_world_current])
     (simp add: example_world_def joinPath_def column_or_One_def active_column_def)

lemma opened_world_facts:
  "currentPanel opened_world = Some 0"
  "instances opened_world = [\<lparr>panel = 0, extensionUri = ''/ext'',
           disposables = [OnDidDisposeSub 0, OnDidReceiveMessageSub 0]\<rparr>]"
  "length (views opened_world) = 1"
  "isDisposed (views opened_world ! 0) = False"
  "onDidDispose_listener (views opened_world ! 0) = Some 0"
  "log opened_world = [CreateWebviewPanel 0, AssignCurrentPanel (Some 0)]"
  "active_column opened_world = None"
  by (simp_all add: opened_world_eq active_column_def example_world_def)

lemma opened_world_owns: "owns_view opened_world 0"
  by (simp add: owns_view_def opened_world_facts)

section \<open>Facts about the markup template\<close>

lemma count_occ_skip:
  "CHR ''<'' \<notin> set x \<Longrightarrow> count_occ (CHR ''<'' # p) (x @ rest) = count_occ (CHR ''<'' # p) rest"
  by (induction x) auto

lemma find_after_skip:
  "CHR ''<'' \<notin> set x \<Longrightarrow> find_after (CHR ''<'' # p) (x @ rest) = find_after (CHR ''<'' # p) rest"
  by (induction x) auto

lemma takeWhile_skip:
  "q \<notin> set x \<Longrightarrow> takeWhile (\<lambda>c. c \<noteq> q) (x @ rest) = x @ takeWhile (\<lambda>c. c \<noteq> q) rest"
  by (induction x) auto

lemma split_on_nonempty: "split_on sep s \<noteq> []"
  by (induction s) (auto split: list.splits)

lemma split_on_skip:
  "sep \<notin> set x \<Longrightarrow>
   split_on sep (x @ rest) = (x @ hd (split_on sep rest)) # tl (split_on sep rest)"
proof (induction x)
  case Nil
  then show ?case using split_on_nonempty [of sep rest] by simp
next
  case (Cons c cs)
  then show ?case by auto
qed

lemma split_on_sep:
  "split_on sep (x @ sep # rest) = split_on sep x @ split_on sep rest"
proof (induction x)
  case Nil
  show ?case by simp
next
  case (Cons c cs)
  obtain w ws where "split_on sep cs = w # ws"
    using split_on_nonempty [of sep cs] by (cases "split_on sep cs") auto
  with Cons show ?case by simp
qed

lemma script_tag_count:
  assumes "CHR ''<'' \<notin> set c" "CHR ''<'' \<notin> set s" "CHR ''<'' \<notin> set n" "CHR ''<'' \<notin> set u"
  shows "count_occ ''<script'' (html_template c s n u) = 1"
  using assms by (simp add: html_template_def count_occ_skip)

lemma link_tag_count:
  assumes "CHR ''<'' \<notin> set c" "CHR ''<'' \<notin> set s" "CHR ''<'' \<notin> set n" "CHR ''<'' \<notin> set u"
  shows "count_occ ''<link'' (html_template c s n u) = 1"
  using assms by (simp add: html_template_def count_occ_skip)

lemma mount_count:
  assumes "CHR ''<'' \<notin> set c" "CHR ''<'' \<notin> set s" "CHR ''<'' \<notin> set n" "CHR ''<'' \<notin> set u"
  shows \<open>count_occ ''<div'' (html_template c s n u) = 1
       \<and> count_occ ''<div id="root"></div>'' (html_template c s n u) = 1\<close>
  using assms by (simp add: html_template_def count_occ_skip)

lemma script_tag_content:
  assumes "CHR ''<'' \<notin> set c" "CHR ''<'' \<notin> set s" "CHR ''<'' \<notin> set n"
  shows \<open>find_after ''<script'' (html_template c s n u) =
     Some ('' type="module" nonce="'' @ n @ ''" src="'' @ u @ ''"></script>\<newline>  </body>\<newline></html>'')\<close>
  using assms by (simp add: html_template_def find_after_skip)

lemma link_tag_content:
  assumes "CHR ''<'' \<notin> set c" "CHR ''<'' \<notin> set n"
  shows \<open>\<exists>rest. find_after ''<link'' (html_template c s n u) =
     Some ('' href="'' @ s @ ''" rel="stylesheet">'' @ rest)\<close>
  using assms by (simp add: html_template_def find_after_skip)

lemma csp_of_template:
  assumes "CHR 0x22 \<notin> set c" "CHR 0x22 \<notin> set n"
  shows \<open>csp_of_document (html_template c s n u) =
     Some (''default-src 'none'; style-src '' @ c @ '' 'unsafe-inline'; script-src 'nonce-'' @ n @ ''';'')\<close>
  using assms by (simp add: html_template_def csp_of_document_def takeWhile_skip)

lemma parse_policy:
  assumes "CHR '';'' \<notin> set c" "CHR '';'' \<notin> set n" "CHR '' '' \<notin> set n"
  shows \<open>parse_csp (''default-src 'none'; style-src '' @ c @ '' 'unsafe-inline'; script-src 'nonce-'' @ n @ ''';'') =
     [(''default-src'', [quoted ''none'']),
      (''style-src'', words_of c @ [quoted ''unsafe-inline'']),
      (''script-src'', [quoted (''nonce-'' @ n)])]\<close>
  using assms by (simp add: parse_csp_def words_of_def quoted_def split_on_skip split_on_sep)

lemma template_directives:
  assumes "CHR '';'' \<notin> set c" "CHR 0x22 \<notin> set c"
    and "CHR '' '' \<notin> set n" "CHR '';'' \<notin> set n" "CHR 0x22 \<notin> set n"
  shows "csp_directives (html_template c s n u) =
     Some [(''default-src'', [quoted ''none'']),
           (''style-src'', words_of c @ [quoted ''unsafe-inline'']),
           (''script-src'', [quoted (''nonce-'' @ n)])]"
  unfolding csp_directives_def csp_of_template [OF assms(2) assms(5)] option.map
    parse_policy [OF assms(1) assms(4) assms(3)]
  by (rule refl)

lemma getHtmlForWebview_template:
  "fst (getHtmlForWebview this w) =
     html_template (cspSource w)
       (asWebviewUri w (joinPath (extensionUri this) [''webview-ui'', ''dist'', ''assets'', ''index.css'']))
       (fst (getNonce w))
       (asWebviewUri w (joinPath (extensionUri this) [''webview-ui'', ''dist'', ''assets'', ''index.js'']))"
  by (simp add: getHtmlForWebview_def getNonce_def Let_def)

lemma renders_draw_new_tokens:
  "fst (getNonce w) = random_tokens w (tokens_drawn w)
   \<and> fst (getNonce (snd (getHtmlForWebview this w))) = random_tokens w (Suc (tokens_drawn w))"
  by (simp add: getHtmlForWebview_def getNonce_def Let_def)

lemma opened_world_html:
  "html (views opened_world ! 0) =
     html_template ''https://cdn.example''
       ''https://cdn.example/ext/webview-ui/dist/assets/index.css'' ''a1b2''
       ''https://cdn.example/ext/webview-ui/dist/assets/index.js''"
  by (simp add: opened_world_eq)

lemma words_of_example: "words_of ''https://cdn.example'' = [''https://cdn.example'']"
  by (simp add: words_of_def)

section \<open>Message routing: the claims\<close>

text \<open>
  C2 (as stated, refuted): a message \<^verbatim>\<open>{command: 'alert'}\<close> without a text field does not make
  the host show the fallback \<^verbatim>\<open>'Hello from webview!'\<close>: the host passes \<^verbatim>\<open>message.text\<close>, which
  is \<^verbatim>\<open>undefined\<close>, to \<^verbatim>\<open>showInformationMessage\<close>.
\<close>

theorem alert_without_text_no_fallback:
  "onDidReceiveMessage_handler 0 (JObj [(''command'', JStr ''alert'')]) opened_world
     = Inr (opened_world\<lparr>log := log opened_world @ [ShowInformationMessage JUndefined]\<rparr>)
   \<and> onDidReceiveMessage_handler 0 (JObj [(''command'', JStr ''alert'')]) opened_world
     \<noteq> Inr (opened_world\<lparr>log := log opened_world @
                [ShowInformationMessage (JStr ''Hello from webview!'')]\<rparr>)"
proof -
  have shown: "onDidReceiveMessage_handler 0 (JObj [(''command'', JStr ''alert'')]) opened_world
     = Inr (opened_world\<lparr>log := log opened_world @ [ShowInformationMessage JUndefined]\<rparr>)"
    by (simp add: onDidReceiveMessage_handler_def showInformationMessage_def emit_def)
  have "log (opened_world\<lparr>log := log opened_world @ [ShowInformationMessage JUndefined]\<rparr>)
      \<noteq> log (opened_world\<lparr>log := log opened_world @
                [ShowInformationMessage (JStr ''Hello from webview!'')]\<rparr>)"
    by simp
  then have "opened_world\<lparr>log := log opened_world @ [ShowInformationMessage JUndefined]\<rparr>
      \<noteq> opened_world\<lparr>log := log opened_world @
                [ShowInformationMessage (JStr ''Hello from webview!'')]\<rparr>"
    by metis
  with shown show ?thesis by simp
qed

text \<open>
  C2 (amended): receiving \<^verbatim>\<open>{command: 'alert', text: 'hi'}\<close> results in exactly one
  notification call, displaying \<^verbatim>\<open>'hi'\<close>; receiving \<^verbatim>\<open>{command: 'alert'}\<close> with no text field
  results in exactly one notification call whose argument is \<^verbatim>\<open>undefined\<close>; the fallback
  \<^verbatim>\<open>'Hello from webview!'\<close> is what the webview sender posts when its input is empty.
\<close>

theorem alert_shows_text_as_received:
  "onDidReceiveMessage_handler i (JObj [(''command'', JStr ''alert''), (''text'', JStr ''hi'')]) w
     = Inr (w\<lparr>log := log w @ [ShowInformationMessage (JStr ''hi'')]\<rparr>)
   \<and> onDidReceiveMessage_handler i (JObj [(''command'', JStr ''alert'')]) w
     = Inr (w\<lparr>log := log w @ [ShowInformationMessage JUndefined]\<rparr>)
   \<and> handleSendMessage [] =
       [JObj [(''command'', JStr ''alert''), (''text'', JStr ''Hello from webview!'')]]"
  by (simp add: onDidReceiveMessage_handler_def showInformationMessage_def emit_def
      handleSendMessage_def)

text \<open>
  C3: for every inbound message whose command is \<^verbatim>\<open>'getData'\<close>, whatever its other fields,
  the handler of panel object \<open>i\<close> makes exactly one call, a \<^verbatim>\<open>postMessage\<close> to the webview of
  its own native view, with the reply
  \<^verbatim>\<open>{command: 'dataResponse', data: {message: 'Hello from extension!'}}\<close>.
\<close>

theorem getData_posts_one_reply:
  assumes "get_prop message ''command'' = Inr (JStr ''getData'')"
  shows "onDidReceiveMessage_handler i message w =
           Inr (w\<lparr>log := log w @
                  [PostMessage (panel (instances w ! i))
                     (JObj [(''command'', JStr ''dataResponse''),
                            (''data'', JObj [(''message'', JStr ''Hello from extension!'')])])]\<rparr>)"
  using assms
  by (simp add: onDidReceiveMessage_handler_def postMessage_def emit_def dataResponse_def)

theorem getData_posts_one_reply_witness:
  "get_prop (JObj [(''command'', JStr ''getData''), (''text'', JStr ''ignored''), (''n'', JNum 7)])
       ''command'' = Inr (JStr ''getData'') \<and>
   onDidReceiveMessage_handler 0
       (JObj [(''command'', JStr ''getData''), (''text'', JStr ''ignored''), (''n'', JNum 7)])
       opened_world =
     Inr (opened_world
            \<lparr>log := log opened_world @
               [PostMessage 0
                  (JObj [(''command'', JStr ''dataResponse''),
                         (''data'', JObj [(''message'', JStr ''Hello from extension!'')])])]\<rparr>)"
proof -
  have c: "get_prop (JObj [(''command'', JStr ''getData''), (''text'', JStr ''ignored''), (''n'', JNum 7)])
       ''command'' = Inr (JStr ''getData'')"
    by simp
  from getData_posts_one_reply [OF c, of 0 opened_world] c opened_world_panel
  show ?thesis by simp
qed

text \<open>
  C6: for every inbound message whose \<^verbatim>\<open>command\<close> does not read as \<^verbatim>\<open>'alert'\<close> or \<^verbatim>\<open>'getData'\<close>
  (a missing field reads as \<^verbatim>\<open>undefined\<close>; \<^verbatim>\<open>null\<close> and \<^verbatim>\<open>undefined\<close> messages have no
  property to read), no branch of the listener runs: it returns with the whole host state
  unchanged, so no reply is posted and no notification shown, or, exactly when the message
  is \<^verbatim>\<open>null\<close> or \<^verbatim>\<open>undefined\<close>, it throws a TypeError before any effect. The error is not
  fatal: the delivery of such a message by the platform leaves the host state unchanged,
  whatever view it comes from.
\<close>

theorem unrecognized_command_ignored:
  assumes "get_prop message ''command'' \<noteq> Inr (JStr ''alert'')"
    and "get_prop message ''command'' \<noteq> Inr (JStr ''getData'')"
  shows "onDidReceiveMessage_handler i message w =
           (if message = JUndefined \<or> message = JNull then Inl TypeError else Inr w)
         \<and> receive_message v message w = w"
proof -
  have h: "onDidReceiveMessage_handler i message w =
           (if message = JUndefined \<or> message = JNull then Inl TypeError else Inr w)" for i
  proof (cases "get_prop message ''command''")
    case (Inl e)
    then have "message = JUndefined \<or> message = JNull"
      by (cases message) simp_all
    then show ?thesis
      by (auto simp: onDidReceiveMessage_handler_def)
  next
    case (Inr c)
    then have "message \<noteq> JUndefined" and "message \<noteq> JNull"
      by auto
    with Inr assms show ?thesis
      by (simp add: onDidReceiveMessage_handler_def)
  qed
  have "receive_message v message w = w"
    by (simp add: receive_message_def h split: option.splits)
  with h show ?thesis by simp
qed

theorem unrecognized_command_ignored_witness:
  "get_prop (JObj [(''text'', JStr ''hi'')]) ''command'' \<noteq> Inr (JStr ''alert'')
   \<and> get_prop (JObj [(''text'', JStr ''hi'')]) ''command'' \<noteq> Inr (JStr ''getData'')
   \<and> onDidReceiveMessage_handler 0 (JObj [(''text'', JStr ''hi'')]) opened_world = Inr opened_world
   \<and> receive_message 0 (JObj [(''text'', JStr ''hi'')]) opened_world = opened_world
   \<and> get_prop (JObj [(''command'', JStr ''save'')]) ''command'' \<noteq> Inr (JStr ''alert'')
   \<and> get_prop (JObj [(''command'', JStr ''save'')]) ''command'' \<noteq> Inr (JStr ''getData'')
   \<and> onDidReceiveMessage_handler 0 (JObj [(''command'', JStr ''save'')]) opened_world
       = Inr opened_world
   \<and> receive_message 0 (JObj [(''command'', JStr ''save'')]) opened_world = opened_world
   \<and> get_prop JNull ''command'' \<noteq> Inr (JStr ''alert'')
   \<and> get_prop JNull ''command'' \<noteq> Inr (JStr ''getData'')
   \<and> onDidReceiveMessage_handler 0 JNull opened_world = Inl TypeError
   \<and> receive_message 0 JNull opened_world = opened_world"
proof -
  have a: "get_prop (JObj [(''text'', JStr ''hi'')]) ''command'' \<noteq> Inr (JStr ''alert'')"
      "get_prop (JObj [(''text'', JStr ''hi'')]) ''command'' \<noteq> Inr (JStr ''getData'')"
    by simp_all
  have b: "get_prop (JObj [(''command'', JStr ''save'')]) ''command'' \<noteq> Inr (JStr ''alert'')"
      "get_prop (JObj [(''command'', JStr ''save'')]) ''command'' \<noteq> Inr (JStr ''getData'')"
    by simp_all
  have c: "get_prop JNull ''command'' \<noteq> Inr (JStr ''alert'')"
      "get_prop JNull ''command'' \<noteq> Inr (JStr ''getData'')"
    by simp_all
  from unrecognized_command_ignored [OF a, of 0 opened_world 0]
    unrecognized_command_ignored [OF b, of 0 opened_world 0]
    unrecognized_command_ignored [OF c, of 0 opened_world 0] a b c
  show ?thesis by simp
qed

text \<open>
  C10: for every input string \<open>s\<close>, Send Alert posts exactly one message
  \<^verbatim>\<open>{command: 'alert', text: t}\<close>, where \<open>t\<close> is \<open>s\<close> if \<open>s\<close> is not empty and
  \<^verbatim>\<open>'Hello from webview!'\<close> if it is; the host alert handler shows the text it receives,
  whatever it is, and shows \<^verbatim>\<open>undefined\<close> when there is none: it has no fallback of its own.
\<close>

theorem send_alert_text_or_fallback:
  "(s \<noteq> [] \<longrightarrow>
      handleSendMessage s = [JObj [(''command'', JStr ''alert''), (''text'', JStr s)]])
   \<and> (s = [] \<longrightarrow>
      handleSendMessage s =
        [JObj [(''command'', JStr ''alert''), (''text'', JStr ''Hello from webview!'')]])
   \<and> onDidReceiveMessage_handler i (JObj [(''command'', JStr ''alert''), (''text'', t)]) w
       = Inr (w\<lparr>log := log w @ [ShowInformationMessage t]\<rparr>)
   \<and> onDidReceiveMessage_handler i (JObj [(''command'', JStr ''alert'')]) w
       = Inr (w\<lparr>log := log w @ [ShowInformationMessage JUndefined]\<rparr>)"
  by (simp add: onDidReceiveMessage_handler_def showInformationMessage_def emit_def
      handleSendMessage_def)

theorem send_alert_text_or_fallback_witness:
  "handleSendMessage ''hi'' = [JObj [(''command'', JStr ''alert''), (''text'', JStr ''hi'')]]
   \<and> handleSendMessage [] =
        [JObj [(''command'', JStr ''alert''), (''text'', JStr ''Hello from webview!'')]]
   \<and> onDidReceiveMessage_handler 0 (JObj [(''command'', JStr ''alert''), (''text'', JStr [])])
         opened_world
       = Inr (opened_world\<lparr>log := log opened_world @ [ShowInformationMessage (JStr [])]\<rparr>)"
  using send_alert_text_or_fallback [of "''hi''" 0 "JStr []" opened_world]
    send_alert_text_or_fallback [of "[]" 0 "JStr []" opened_world]
  by simp

section \<open>Panel lifecycle: the claims\<close>

text \<open>
  C1: at most one panel is live at any time. When \<^verbatim>\<open>currentPanel\<close> is set, \<^verbatim>\<open>createOrShow\<close> only
  reveals the existing view: the whole state is unchanged but for that one call. When it is
  unset, exactly one view is created, it is live, and the new panel object bound to it is
  stored as the singleton. From a state that satisfies the singleton invariant, opening
  twice in succession leaves exactly one live view, and after any sequence of host events
  at most one view is live.
\<close>

theorem createOrShow_singleton:
  "(currentPanel w = Some i \<longrightarrow>
      createOrShow uri w =
        w\<lparr>log := log w @ [Reveal (panel (instances w ! i)) (active_column w)]\<rparr>)
   \<and> (currentPanel w = None \<longrightarrow>
        length (views (createOrShow uri w)) = Suc (length (views w))
      \<and> take (length (views w)) (views (createOrShow uri w)) = views w
      \<and> \<not> isDisposed (views (createOrShow uri w) ! length (views w))
      \<and> currentPanel (createOrShow uri w) = Some (length (instances w))
      \<and> panel (instances (createOrShow uri w) ! length (instances w)) = length (views w)
      \<and> log (createOrShow uri w) =
          log w @ [CreateWebviewPanel (length (views w)),
                   AssignCurrentPanel (Some (length (instances w)))])
   \<and> (single_panel w \<longrightarrow> live_views (createOrShow uri' (createOrShow uri w)) = 1)
   \<and> (single_panel w \<longrightarrow> live_views (run uri evs w) \<le> 1)"
proof (intro conjI impI)
  assume "currentPanel w = Some i"
  then show "createOrShow uri w =
        w\<lparr>log := log w @ [Reveal (panel (instances w ! i)) (active_column w)]\<rparr>"
    by (rule createOrShow_Some)
next
  assume s: "single_panel w"
  then have "single_panel (createOrShow uri w)"
    by (simp add: single_panel_createOrShow)
  then show "live_views (createOrShow uri' (createOrShow uri w)) = 1"
    by (simp add: single_panel_createOrShow)
  from s show "live_views (run uri evs w) \<le> 1"
    by (intro single_panel_live single_panel_run)
qed (simp_all add: createOrShow_None)

theorem createOrShow_singleton_witness:
  "currentPanel opened_world = Some 0
   \<and> createOrShow ''/ext'' opened_world = opened_world\<lparr>log := log opened_world @ [Reveal 0 None]\<rparr>
   \<and> currentPanel example_world = None
   \<and> length (views (createOrShow ''/ext'' example_world)) = 1
   \<and> currentPanel (createOrShow ''/ext'' example_world) = Some 0
   \<and> log (createOrShow ''/ext'' example_world) = [CreateWebviewPanel 0, AssignCurrentPanel (Some 0)]
   \<and> single_panel example_world
   \<and> live_views (createOrShow ''/ext'' (createOrShow ''/ext'' example_world)) = 1
   \<and> live_views (run ''/ext'' [OpenPanelCommand, OpenPanelCommand, UserClosesPanel 0,
         OpenPanelCommand, WebviewPosts 1 JNull, OpenPanelCommand] example_world) \<le> 1"
  using createOrShow_singleton [of opened_world 0 "''/ext''" "''/ext''" "[]"]
    createOrShow_singleton [of example_world 0 "''/ext''" "''/ext''"
      "[OpenPanelCommand, OpenPanelCommand, UserClosesPanel 0,
         OpenPanelCommand, WebviewPosts 1 JNull, OpenPanelCommand]"]
    example_world_single example_world_current opened_world_facts
  by (simp add: example_world_def)

text \<open>
  C4: one call of \<^verbatim>\<open>dispose()\<close> invokes the cleanup actions of the \<^verbatim>\<open>_disposables\<close> array, each
  entry exactly once (last registered first), and leaves the array empty; a second call of
  \<^verbatim>\<open>dispose()\<close> invokes no cleanup action.
\<close>

theorem dispose_invokes_each_cleanup_once:
  assumes "owns_view w i"
  shows "cleanup_calls (drop (length (log w)) (log (dispose i w)))
           = rev (disposables (instances w ! i))
     \<and> (\<forall>d. count_list (cleanup_calls (drop (length (log w)) (log (dispose i w)))) d
             = count_list (disposables (instances w ! i)) d)
     \<and> disposables (instances (dispose i w) ! i) = []
     \<and> cleanup_calls (drop (length (log (dispose i w))) (log (dispose i (dispose i w)))) = []"
proof -
  from assms have i: "i < length (instances w)"
    and v: "panel (instances w ! i) < length (views w)"
    by (simp_all add: owns_view_def)
  have calls: "cleanup_calls (drop (length (log w)) (log (dispose i w)))
           = rev (disposables (instances w ! i))"
    by (simp add: dispose_log [OF assms])
  have emptied: "disposables (instances (dispose i w) ! i) = []"
    using i by (simp add: dispose_instances [OF assms])
  have pnl: "panel (instances (dispose i w) ! i) = panel (instances w ! i)"
    using i by (simp add: dispose_instances [OF assms])
  have len: "length (views (dispose i w)) = length (views w)"
    using arg_cong [OF dispose_isDisposed [OF assms], of length] by simp
  have "map isDisposed (views (dispose i w)) ! panel (instances w ! i) = True"
    using v by (simp add: dispose_isDisposed [OF assms])
  with v len have "isDisposed (views (dispose i w) ! panel (instances w ! i))"
    by simp
  with i v len pnl have own2: "owns_view (dispose i w) i"
    by (simp add: owns_view_def dispose_instances [OF assms])
  have "cleanup_calls (drop (length (log (dispose i w))) (log (dispose i (dispose i w)))) = []"
    by (simp add: dispose_log [OF own2] emptied)
  with calls emptied show ?thesis by simp
qed

theorem dispose_invokes_each_cleanup_once_witness:
  "owns_view opened_world 0
   \<and> disposables (instances opened_world ! 0) = [OnDidDisposeSub 0, OnDidReceiveMessageSub 0]
   \<and> cleanup_calls (drop (length (log opened_world)) (log (dispose 0 opened_world)))
       = [OnDidReceiveMessageSub 0, OnDidDisposeSub 0]
   \<and> disposables (instances (dispose 0 opened_world) ! 0) = []
   \<and> cleanup_calls (drop (length (log (dispose 0 opened_world)))
         (log (dispose 0 (dispose 0 opened_world)))) = []"
  using dispose_invokes_each_cleanup_once [OF opened_world_owns] opened_world_owns
  by (simp add: opened_world_facts)

text \<open>
  C5 (as stated, refuted): \<^verbatim>\<open>dispose()\<close> does not release the view and the cleanup actions
  before it clears \<^verbatim>\<open>currentPanel\<close>: on the opened host the first effect of \<^verbatim>\<open>dispose()\<close> is the
  write of \<^verbatim>\<open>undefined\<close> to \<^verbatim>\<open>currentPanel\<close>, and every release follows it.
\<close>

theorem dispose_clears_singleton_first:
  "drop (length (log opened_world)) (log (dispose 0 opened_world)) =
     [AssignCurrentPanel None, PanelDispose 0, AssignCurrentPanel None, PanelDispose 0,
      DisposableDispose (OnDidReceiveMessageSub 0), DisposableDispose (OnDidDisposeSub 0)]
   \<and> \<not> clears_after_releasing (drop (length (log opened_world)) (log (dispose 0 opened_world)))"
  by (simp add: dispose_log [OF opened_world_owns] opened_world_facts clears_after_releasing_def)

text \<open>
  C5 (amended): \<^verbatim>\<open>dispose()\<close> first clears \<^verbatim>\<open>currentPanel\<close>, then disposes the native view (when
  the view was live and its \<^verbatim>\<open>onDidDispose\<close> listener subscribed, the listener's nested
  \<^verbatim>\<open>dispose()\<close> repeats these two steps), and then invokes the owned cleanup actions, last
  registered first; after it returns \<^verbatim>\<open>currentPanel\<close> is undefined and the array is empty.
\<close>

theorem dispose_clears_then_releases:
  assumes "owns_view w i"
  shows "log (dispose i w) =
      log w @ [AssignCurrentPanel None, PanelDispose (panel (instances w ! i))] @
      (if \<not> isDisposed (views w ! panel (instances w ! i)) \<and>
          onDidDispose_listener (views w ! panel (instances w ! i)) = Some i
       then [AssignCurrentPanel None, PanelDispose (panel (instances w ! i))] else []) @
      map DisposableDispose (rev (disposables (instances w ! i)))
    \<and> currentPanel (dispose i w) = None
    \<and> disposables (instances (dispose i w) ! i) = []"
proof -
  from assms have "i < length (instances w)"
    by (simp add: owns_view_def)
  then have "disposables (instances (dispose i w) ! i) = []"
    by (simp add: dispose_instances [OF assms])
  with dispose_log [OF assms] dispose_currentPanel [OF assms] show ?thesis
    by (simp only: simp_thms)
qed

theorem dispose_clears_then_releases_witness:
  "owns_view opened_world 0
   \<and> log (dispose 0 opened_world) =
       [CreateWebviewPanel 0, AssignCurrentPanel (Some 0),
        AssignCurrentPanel None, PanelDispose 0, AssignCurrentPanel None, PanelDispose 0,
        DisposableDispose (OnDidReceiveMessageSub 0), DisposableDispose (OnDidDisposeSub 0)]
   \<and> currentPanel (dispose 0 opened_world) = None
   \<and> disposables (instances (dispose 0 opened_world) ! 0) = []"
  using dispose_clears_then_releases [OF opened_world_owns] opened_world_owns
  by (simp add: opened_world_facts)

text \<open>
  C8: after \<^verbatim>\<open>dispose()\<close>, \<^verbatim>\<open>createOrShow\<close> constructs a new panel object, distinct from the
  prior one, whose array is empty when the object is allocated; when \<^verbatim>\<open>createOrShow\<close>
  returns, the array holds the two subscriptions the constructor registered on the new view
  and none of the prior object's, and the prior object's array is still empty.
\<close>

theorem fresh_panel_after_dispose:
  assumes "owns_view w i"
    and "list_all (\<lambda>d. subscribed_view d < length (views w)) (disposables (instances w ! i))"
  shows "(let w1 = dispose i w;
              (v, wa) = createWebviewPanel ''examplePanel'' ''Example Panel''
                          (column_or_One (active_column w1)) True True
                          [joinPath uri [''out''], joinPath uri [''webview-ui/dist'']] w1;
              (j, wb) = allocate v uri wa
          in createOrShow uri w1 = assign_currentPanel (Some j) (constructor_body j wb)
             \<and> j = length (instances w) \<and> j \<noteq> i
             \<and> disposables (instances wb ! j) = [])
     \<and> currentPanel (createOrShow uri (dispose i w)) = Some (length (instances w))
     \<and> disposables (instances (createOrShow uri (dispose i w)) ! length (instances w))
         = [OnDidDisposeSub (length (views w)), OnDidReceiveMessageSub (length (views w))]
     \<and> set (disposables (instances (createOrShow uri (dispose i w)) ! length (instances w)))
         \<inter> set (disposables (instances w ! i)) = {}
     \<and> disposables (instances (createOrShow uri (dispose i w)) ! i) = []"
proof -
  let ?w1 = "dispose i w"
  from assms(1) have i: "i < length (instances w)" by (simp add: owns_view_def)
  have cur: "currentPanel ?w1 = None" by (rule dispose_currentPanel [OF assms(1)])
  have ins: "instances ?w1 = (instances w)[i := (instances w ! i)\<lparr>disposables := []\<rparr>]"
    by (rule dispose_instances [OF assms(1)])
  have len: "length (views ?w1) = length (views w)"
    using arg_cong [OF dispose_isDisposed [OF assms(1)], of length] by simp
  have first: "(let w1 = dispose i w;
              (v, wa) = createWebviewPanel ''examplePanel'' ''Example Panel''
                          (column_or_One (active_column w1)) True True
                          [joinPath uri [''out''], joinPath uri [''webview-ui/dist'']] w1;
              (j, wb) = allocate v uri wa
          in createOrShow uri w1 = assign_currentPanel (Some j) (constructor_body j wb)
             \<and> j = length (instances w) \<and> j \<noteq> i
             \<and> disposables (instances wb ! j) = [])"
    using i cur ins
    by (simp add: createOrShow_def createWebviewPanel_def allocate_def Let_def emit_def)
  have fresh: "OnDidDisposeSub (length (views w)) \<notin> set (disposables (instances w ! i))
      \<and> OnDidReceiveMessageSub (length (views w)) \<notin> set (disposables (instances w ! i))"
    using assms(2) by (auto simp: list_all_iff)
  from i cur ins len fresh first show ?thesis
    by (simp add: createOrShow_None [OF cur] nth_append)
qed

theorem fresh_panel_after_dispose_witness:
  "owns_view opened_world 0
   \<and> list_all (\<lambda>d. subscribed_view d < length (views opened_world))
        (disposables (instances opened_world ! 0))
   \<and> currentPanel (createOrShow ''/ext'' (dispose 0 opened_world)) = Some 1
   \<and> disposables (instances (createOrShow ''/ext'' (dispose 0 opened_world)) ! 1)
       = [OnDidDisposeSub 1, OnDidReceiveMessageSub 1]
   \<and> set (disposables (instances (createOrShow ''/ext'' (dispose 0 opened_world)) ! 1))
         \<inter> {OnDidDisposeSub 0, OnDidReceiveMessageSub 0} = {}
   \<and> disposables (instances (createOrShow ''/ext'' (dispose 0 opened_world)) ! 0) = []"
proof -
  have reg: "list_all (\<lambda>d. subscribed_view d < length (views opened_world))
        (disposables (instances opened_world ! 0))"
    by (simp add: opened_world_facts)
  from fresh_panel_after_dispose [OF opened_world_owns reg, of "''/ext''"] opened_world_owns reg
  show ?thesis
    by (simp add: opened_world_facts)
qed

section \<open>The markup generator: the claims\<close>

text \<open>
  C7 (as stated, refuted): the policy of the generated document does not allow only the
  bundled stylesheet for styles. In the page of the opened host the \<^verbatim>\<open>style-src\<close> directive
  lists the webview's resource origin and \<^verbatim>\<open>'unsafe-inline'\<close>, which admits inline styles; its
  source list is not the stylesheet's location.
\<close>

theorem style_policy_allows_inline:
  "csp_directives (html (views opened_world ! 0)) =
     Some [(''default-src'', [quoted ''none'']),
           (''style-src'', [''https://cdn.example'', quoted ''unsafe-inline'']),
           (''script-src'', [quoted ''nonce-a1b2''])]
   \<and> quoted ''unsafe-inline'' \<in> set [''https://cdn.example'', quoted ''unsafe-inline'']
   \<and> [''https://cdn.example'', quoted ''unsafe-inline'']
        \<noteq> [''https://cdn.example/ext/webview-ui/dist/assets/index.css'']"
proof -
  have "csp_directives (html (views opened_world ! 0)) =
     Some [(''default-src'', [quoted ''none'']),
           (''style-src'', words_of ''https://cdn.example'' @ [quoted ''unsafe-inline'']),
           (''script-src'', [quoted (''nonce-'' @ ''a1b2'')])]"
    unfolding opened_world_html by (rule template_directives) simp_all
  then show ?thesis by (simp add: words_of_example)
qed

text \<open>
  C7 (amended): the markup generator returns the fixed template filled with the webview's
  resource origin, the stylesheet and script locations and the nonce. Provided the origin
  holds no semicolon, double quote or opening angle bracket, the nonce none of these and no
  space, and the two locations no opening angle bracket, the document's policy has exactly
  three directives: \<^verbatim>\<open>default-src 'none'\<close>, which denies every source not listed; \<^verbatim>\<open>style-src\<close>
  with the resource origin and \<^verbatim>\<open>'unsafe-inline'\<close>; and \<^verbatim>\<open>script-src\<close> with the nonce alone. The
  document has exactly one script tag, which carries the nonce and the script location,
  exactly one link tag, which is the stylesheet link, and exactly one \<^verbatim>\<open>div\<close>, the mount
  element \<^verbatim>\<open>root\<close>.
\<close>

theorem markup_policy_and_skeleton:
  assumes "CHR '';'' \<notin> set c" and "CHR 0x22 \<notin> set c" and "CHR ''<'' \<notin> set c"
    and "CHR '' '' \<notin> set n" and "CHR '';'' \<notin> set n" and "CHR 0x22 \<notin> set n"
    and "CHR ''<'' \<notin> set n" and "CHR ''<'' \<notin> set s" and "CHR ''<'' \<notin> set u"
  shows \<open>fst (getHtmlForWebview this w) =
       html_template (cspSource w)
         (asWebviewUri w (joinPath (extensionUri this) [''webview-ui'', ''dist'', ''assets'', ''index.css'']))
         (fst (getNonce w))
         (asWebviewUri w (joinPath (extensionUri this) [''webview-ui'', ''dist'', ''assets'', ''index.js'']))
     \<and> csp_directives (html_template c s n u) =
         Some [(''default-src'', [quoted ''none'']),
               (''style-src'', words_of c @ [quoted ''unsafe-inline'']),
               (''script-src'', [quoted (''nonce-'' @ n)])]
     \<and> count_occ ''<script'' (html_template c s n u) = 1
     \<and> find_after ''<script'' (html_template c s n u) =
         Some ('' type="module" nonce="'' @ n @ ''" src="'' @ u @ ''"></script>\<newline>  </body>\<newline></html>'')
     \<and> count_occ ''<link'' (html_template c s n u) = 1
     \<and> (\<exists>rest. find_after ''<link'' (html_template c s n u) =
           Some ('' href="'' @ s @ ''" rel="stylesheet">'' @ rest))
     \<and> count_occ ''<div'' (html_template c s n u) = 1
     \<and> count_occ ''<div id="root"></div>'' (html_template c s n u) = 1\<close>
  using assms getHtmlForWebview_template [of this w]
    template_directives [of c n s u] script_tag_count [of c s n u]
    script_tag_content [of c s n u] link_tag_count [of c s n u]
    link_tag_content [of c n s u] mount_count [of c s n u]
  by (simp only: simp_thms)

theorem markup_policy_and_skeleton_witness:
  \<open>csp_directives (html (views opened_world ! 0)) =
     Some [(''default-src'', [quoted ''none'']),
           (''style-src'', [''https://cdn.example'', quoted ''unsafe-inline'']),
           (''script-src'', [quoted ''nonce-a1b2''])]
   \<and> count_occ ''<script'' (html (views opened_world ! 0)) = 1
   \<and> find_after ''<script'' (html (views opened_world ! 0)) =
       Some '' type="module" nonce="a1b2" src="https://cdn.example/ext/webview-ui/dist/assets/index.js"></script>\<newline>  </body>\<newline></html>''
   \<and> count_occ ''<link'' (html (views opened_world ! 0)) = 1
   \<and> count_occ ''<div'' (html (views opened_world ! 0)) = 1
   \<and> count_occ ''<div id="root"></div>'' (html (views opened_world ! 0)) = 1\<close>
proof -
  have "CHR '';'' \<notin> set ''https://cdn.example''" and "CHR 0x22 \<notin> set ''https://cdn.example''"
    and "CHR ''<'' \<notin> set ''https://cdn.example''"
    and "CHR '' '' \<notin> set ''a1b2''" and "CHR '';'' \<notin> set ''a1b2''" and "CHR 0x22 \<notin> set ''a1b2''"
    and "CHR ''<'' \<notin> set ''a1b2''"
    and "CHR ''<'' \<notin> set ''https://cdn.example/ext/webview-ui/dist/assets/index.css''"
    and "CHR ''<'' \<notin> set ''https://cdn.example/ext/webview-ui/dist/assets/index.js''"
    by simp_all
  from markup_policy_and_skeleton [OF this]
  show ?thesis
    by (simp add: opened_world_html words_of_example)
qed

end
